theory Spec2Isabelle
  imports Complex_Main
begin

section \<open>JavaScript values as the location parser sees them\<close>

text \<open>
  The parsers work on whatever \<^verbatim>\<open>JSON.parse\<close> returns, so the raw records are
  untyped JavaScript values. A number is an IEEE double: a finite value (taken as a real,
  rounding is not modelled), \<^verbatim>\<open>NaN\<close> or an infinity (\<^verbatim>\<open>JSON.parse("1e999")\<close>).
  Strings are lists of 8-bit characters.
\<close>

datatype jsnum = Finite real | NaN | PosInf | NegInf

datatype jsval =
    JUndefined
  | JNull
  | JBool bool
  | JNum jsnum
  | JStr string
  | JArr "jsval list"
  | JObj "(string \<times> jsval) list"

text \<open>Every \<^verbatim>\<open>throw\<close> of the source and every exception of the runtime is a value.\<close>

datatype jserror =
    TypeError
  | SyntaxError
  | CollaboratorError
  | NoValidLocationsFound
  | InvalidCoordinatesFor jsval

text \<open>\<^verbatim>\<open>a <= b\<close> on numbers: false as soon as one side is \<^verbatim>\<open>NaN\<close>.\<close>

fun num_le :: "jsnum \<Rightarrow> jsnum \<Rightarrow> bool" where
  "num_le NaN _ = False"
| "num_le _ NaN = False"
| "num_le NegInf _ = True"
| "num_le _ PosInf = True"
| "num_le (Finite x) (Finite y) = (x \<le> y)"
| "num_le PosInf _ = False"
| "num_le _ NegInf = False"

text \<open>The values that \<^verbatim>\<open>||\<close> and \<^verbatim>\<open>if\<close> take as true.\<close>

fun truthy :: "jsval \<Rightarrow> bool" where
  "truthy JUndefined = False"
| "truthy JNull = False"
| "truthy (JBool b) = b"
| "truthy (JNum n) = (n \<noteq> NaN \<and> n \<noteq> Finite 0)"
| "truthy (JStr s) = (s \<noteq> [])"
| "truthy (JArr _) = True"
| "truthy (JObj _) = True"

fun nullish :: "jsval \<Rightarrow> bool" where
  "nullish JUndefined = True"
| "nullish JNull = True"
| "nullish _ = False"

text \<open>
  \<^verbatim>\<open>v.key\<close> for a value that is neither \<^verbatim>\<open>null\<close> nor \<^verbatim>\<open>undefined\<close> (on those the read
  throws a TypeError, which every caller below checks first). The keys this program reads
  (name, coordinates, rating, reviews, image, description, locations) are own properties
  of objects only: on an array, a string, a number or a boolean the read gives
  \<^verbatim>\<open>undefined\<close>.
\<close>

fun getProp :: "jsval \<Rightarrow> string \<Rightarrow> jsval" where
  "getProp (JObj kvs) key = (case map_of kvs key of None \<Rightarrow> JUndefined | Some v \<Rightarrow> v)"
| "getProp _ key = JUndefined"

text \<open>\<^verbatim>\<open>v[0]\<close> and \<^verbatim>\<open>v[1]\<close>, again for a value that is not null or undefined.\<close>

fun index_key :: "nat \<Rightarrow> string" where
  "index_key i = (if i = 0 then ''0'' else ''1'')"

fun elem :: "jsval \<Rightarrow> nat \<Rightarrow> jsval" where
  "elem (JArr xs) i = (if i < length xs then xs ! i else JUndefined)"
| "elem (JStr s) i = (if i < length s then JStr [s ! i] else JUndefined)"
| "elem (JObj kvs) i = (case map_of kvs (index_key i) of None \<Rightarrow> JUndefined | Some v \<Rightarrow> v)"
| "elem _ i = JUndefined"

section \<open>The runtime and the collaborators\<close>

text \<open>
  What the parser calls and does not define: the clock, the random source, the
  conversions of the runtime, \<^verbatim>\<open>JSON.parse\<close>, the two regular expressions that cut the
  JSON block out of the reply, and the image and place lookup services (their modules
  are not part of the sources read here). A collaborator may throw. \<open>Date_now env i\<close> is
  what the clock shows while element \<open>i\<close> of a batch is built, \<open>Math_random env k\<close> is
  draw number \<open>k\<close> of a call.
\<close>

datatype pattern = LocationsBlock | SingleLocation

record position =
  lat :: jsval
  lng :: jsval

record env =
  Date_now :: "nat \<Rightarrow> int"
  Math_random :: "nat \<Rightarrow> real"
  Number_of :: "jsval \<Rightarrow> jsnum"
  String_of :: "jsval \<Rightarrow> string"
  JSON_parse :: "string \<Rightarrow> jsval option"
  String_match :: "pattern \<Rightarrow> string \<Rightarrow> string option"
  encodeURIComponent :: "string \<Rightarrow> jserror + string"
  generateImageUrl :: "jsval \<Rightarrow> jserror + string"
  getCoordinates :: "string \<Rightarrow> jserror + position option"
  getLocationDescription :: "string \<Rightarrow> jserror + jsval"

text \<open>
  \<^verbatim>\<open>Number(v)\<close>: fixed by the language on undefined, null, booleans and numbers; a string,
  an array or an object goes through the runtime's string conversion (\<open>Number_of\<close>).
\<close>

fun ToNumber :: "env \<Rightarrow> jsval \<Rightarrow> jsnum" where
  "ToNumber env JUndefined = NaN"
| "ToNumber env JNull = Finite 0"
| "ToNumber env (JBool b) = Finite (if b then 1 else 0)"
| "ToNumber env (JNum n) = n"
| "ToNumber env v = Number_of env v"

text \<open>\<^verbatim>\<open>`${v}`\<close>: a string is itself, anything else is converted by the runtime.\<close>

fun ToString :: "env \<Rightarrow> jsval \<Rightarrow> string" where
  "ToString env (JStr s) = s"
| "ToString env v = String_of env v"

text \<open>Decimal digits of an index, and of a timestamp (with its sign).\<close>

definition digit :: "nat \<Rightarrow> char" where
  "digit d = ''0123456789'' ! d"

fun showNat :: "nat \<Rightarrow> string" where
  "showNat n = (if n < 10 then [digit n] else showNat (n div 10) @ [digit (n mod 10)])"

declare showNat.simps [simp del]

definition showInt :: "int \<Rightarrow> string" where
  "showInt i = (if i < 0 then CHR ''-'' # showNat (nat (- i)) else showNat (nat i))"

text \<open>White space as \<^verbatim>\<open>\s\<close> and \<^verbatim>\<open>trim()\<close> see it, among 8-bit characters.\<close>

definition isSpace :: "char \<Rightarrow> bool" where
  "isSpace c = ((of_char c :: nat) \<in> {9, 10, 11, 12, 13, 32, 160})"

definition trim :: "string \<Rightarrow> string" where
  "trim s = rev (dropWhile isSpace (rev (dropWhile isSpace s)))"

section \<open>locationParser.ts\<close>

subsection \<open>isValidCoordinates\<close>

text \<open>
  An array of length two, both entries of type number, in range. \<^verbatim>\<open>NaN\<close> and the
  infinities fail the comparisons.
\<close>

fun isValidCoordinates :: "jsval \<Rightarrow> bool" where
  "isValidCoordinates (JArr [JNum la, JNum lo]) =
     (num_le (Finite (- 90)) la \<and> num_le la (Finite 90) \<and>
      num_le (Finite (- 180)) lo \<and> num_le lo (Finite 180))"
| "isValidCoordinates _ = False"

subsection \<open>parseJsonLocations (strict)\<close>

text \<open>
  The object the strict parser builds. It carries the raw \<open>coordinates\<close> array and an
  \<open>image\<close>, not the \<open>position\<close> and \<open>imageUrl\<close> of the other paths.
\<close>

record json_location =
  jl_id :: string
  jl_name :: string
  coordinates :: jsval
  jl_rating :: jsnum
  jl_reviews :: jsnum
  jl_description :: string
  image :: jsval

text \<open>\<^verbatim>\<open>Number(x) || 0\<close>\<close>

definition number_or_zero :: "env \<Rightarrow> jsval \<Rightarrow> jsnum" where
  "number_or_zero env v = (if truthy (JNum (ToNumber env v)) then ToNumber env v else Finite 0)"

text \<open>
  The callback of \<^verbatim>\<open>locations.map\<close> (lines 54 to 69). \<^verbatim>\<open>loc.coordinates\<close> throws on a null
  entry; \<^verbatim>\<open>loc.name.trim()\<close> throws unless the name is a string;
  \<^verbatim>\<open>loc.description?.trim()\<close> throws on a description that is neither absent nor a string.
\<close>

definition strictLocation :: "env \<Rightarrow> nat \<Rightarrow> jsval \<Rightarrow> jserror + json_location" where
  "strictLocation env index loc =
    (if nullish loc then Inl TypeError
     else if \<not> isValidCoordinates (getProp loc ''coordinates'')
       then Inl (InvalidCoordinatesFor (getProp loc ''name''))
     else (case getProp loc ''name'' of
        JStr nm \<Rightarrow>
          (case (case getProp loc ''description'' of
                   JUndefined \<Rightarrow> Inr []
                 | JNull \<Rightarrow> Inr []
                 | JStr d \<Rightarrow> Inr (trim d)
                 | _ \<Rightarrow> Inl TypeError) of
             Inl e \<Rightarrow> Inl e
           | Inr descr \<Rightarrow>
              (case (if truthy (getProp loc ''image'') then Inr (getProp loc ''image'')
                     else map_sum id JStr (generateImageUrl env (JStr nm))) of
                 Inl e \<Rightarrow> Inl e
               | Inr img \<Rightarrow>
                  Inr \<lparr> jl_id = showInt (Date_now env index) @ ''-loc-'' @ showNat index,
                        jl_name = trim nm,
                        coordinates = getProp loc ''coordinates'',
                        jl_rating = number_or_zero env (getProp loc ''rating''),
                        jl_reviews = number_or_zero env (getProp loc ''reviews''),
                        jl_description = descr,
                        image = img \<rparr>))
      | _ \<Rightarrow> Inl TypeError))"

text \<open>\<^verbatim>\<open>Array.prototype.map\<close> with the index; the first exception leaves the whole map.\<close>

fun strictMap :: "env \<Rightarrow> nat \<Rightarrow> jsval list \<Rightarrow> jserror + json_location list" where
  "strictMap env i [] = Inr []"
| "strictMap env i (loc # rest) =
     (case strictLocation env i loc of
        Inl e \<Rightarrow> Inl e
      | Inr l \<Rightarrow> (case strictMap env (Suc i) rest of Inl e \<Rightarrow> Inl e | Inr ls \<Rightarrow> Inr (l # ls)))"

text \<open>
  The loop over the two patterns (lines 35 to 48): no match or a failed parse goes on to
  the next pattern, the first parsed value ends the loop.
\<close>

fun findLocations :: "env \<Rightarrow> string \<Rightarrow> pattern list \<Rightarrow> jsval list" where
  "findLocations env text [] = []"
| "findLocations env text (p # ps) =
     (case String_match env p text of
        None \<Rightarrow> findLocations env text ps
      | Some jsonStr \<Rightarrow>
         (case JSON_parse env jsonStr of
            None \<Rightarrow> findLocations env text ps
          | Some parsed \<Rightarrow>
             (if nullish parsed then findLocations env text ps
              else (case getProp parsed ''locations'' of
                      JArr ls \<Rightarrow> ls
                    | _ \<Rightarrow> [parsed]))))"

definition parseJsonLocations :: "env \<Rightarrow> string \<Rightarrow> jserror + json_location list" where
  "parseJsonLocations env text =
     (let locations = findLocations env text [LocationsBlock, SingleLocation]
      in if locations = [] then Inl NoValidLocationsFound
         else strictMap env 0 locations)"

subsection \<open>extractLocationsFromResponse (permissive)\<close>

record location =
  loc_id :: string
  name :: jsval
  position :: "position option"
  rating :: jsval
  reviews :: jsval
  imageUrl :: jsval
  description :: jsval

text \<open>\<^verbatim>\<open>Math.floor(Math.random() * 40000) + 10000\<close>\<close>

definition randomReviews :: "real \<Rightarrow> jsval" where
  "randomReviews r = JNum (Finite (of_int (\<lfloor>r * 40000\<rfloor> + 10000)))"

text \<open>
  The callback of \<^verbatim>\<open>data.locations.map\<close> (lines 195 to 206), with the number of random
  draws made so far: a draw happens only when \<^verbatim>\<open>loc.reviews\<close> is falsy. No check of the
  coordinates: \<^verbatim>\<open>loc.coordinates[0]\<close> throws when \<^verbatim>\<open>coordinates\<close> is null or absent and
  takes whatever is there otherwise.
\<close>

definition permissiveLocation :: "env \<Rightarrow> nat \<Rightarrow> nat \<Rightarrow> jsval \<Rightarrow> jserror + (location \<times> nat)" where
  "permissiveLocation env index k loc =
    (if nullish loc then Inl TypeError
     else if nullish (getProp loc ''coordinates'') then Inl TypeError
     else
       (let rv = (if truthy (getProp loc ''reviews'') then getProp loc ''reviews''
                  else randomReviews (Math_random env k));
            k' = (if truthy (getProp loc ''reviews'') then k else Suc k)
        in case (if truthy (getProp loc ''image'') then Inr (getProp loc ''image'')
                 else map_sum id JStr (generateImageUrl env (getProp loc ''name''))) of
             Inl e \<Rightarrow> Inl e
           | Inr img \<Rightarrow>
              Inr (\<lparr> loc_id = ''loc-'' @ showInt (Date_now env index) @ ''-'' @ showNat index,
                     name = getProp loc ''name'',
                     position = Some \<lparr> lat = elem (getProp loc ''coordinates'') 0,
                                       lng = elem (getProp loc ''coordinates'') 1 \<rparr>,
                     rating = (if truthy (getProp loc ''rating'') then getProp loc ''rating''
                               else JNum (Finite 4.5)),
                     reviews = rv,
                     imageUrl = img,
                     description = (if truthy (getProp loc ''description'') then getProp loc ''description''
                                    else JStr (''Visit '' @ ToString env (getProp loc ''name''))) \<rparr>,
                   k')))"

fun permissiveMap :: "env \<Rightarrow> nat \<Rightarrow> nat \<Rightarrow> jsval list \<Rightarrow> jserror + location list" where
  "permissiveMap env i k [] = Inr []"
| "permissiveMap env i k (loc # rest) =
     (case permissiveLocation env i k loc of
        Inl e \<Rightarrow> Inl e
      | Inr (l, k') \<Rightarrow>
         (case permissiveMap env (Suc i) k' rest of Inl e \<Rightarrow> Inl e | Inr ls \<Rightarrow> Inr (l # ls)))"

text \<open>
  Lines 189 to 206 on the parsed value: the body of the \<^verbatim>\<open>try\<close>, then the \<^verbatim>\<open>catch\<close> that
  turns every exception into the empty list.
\<close>

definition extractLocationsBody :: "env \<Rightarrow> jsval \<Rightarrow> jserror + location list" where
  "extractLocationsBody env data =
     (if nullish data then Inl TypeError
      else (case getProp data ''locations'' of
              JArr locs \<Rightarrow> permissiveMap env 0 0 locs
            | _ \<Rightarrow> Inr []))"

definition extractLocationsFromData :: "env \<Rightarrow> jsval \<Rightarrow> location list" where
  "extractLocationsFromData env data =
     (case extractLocationsBody env data of Inl e \<Rightarrow> [] | Inr ls \<Rightarrow> ls)"

definition extractLocationsFromResponse :: "env \<Rightarrow> string \<Rightarrow> location list" where
  "extractLocationsFromResponse env text =
     (case String_match env LocationsBlock text of
        None \<Rightarrow> []
      | Some jsonStr \<Rightarrow>
         (case JSON_parse env jsonStr of
            None \<Rightarrow> []
          | Some data \<Rightarrow> extractLocationsFromData env data))"

section \<open>ChatMessage.tsx: the JSON-processing path\<close>

text \<open>
  Lines 55 to 81 of the effect. \<open>None\<close>: \<^verbatim>\<open>setLocations\<close> is not called (the message is
  still streaming, there is no JSON, \<^verbatim>\<open>data.locations\<close> is not an array, or an exception
  was caught and logged). \<open>Some ls\<close>: the batch handed to \<^verbatim>\<open>setLocations\<close>.
\<close>

definition chatLocation :: "env \<Rightarrow> nat \<Rightarrow> jsval \<Rightarrow> jserror + location" where
  "chatLocation env index loc =
    (if nullish loc then Inl TypeError
     else if nullish (getProp loc ''coordinates'') then Inl TypeError
     else
       (case (if truthy (getProp loc ''image'') then Inr (getProp loc ''image'')
              else map_sum id
                     (\<lambda>q. JStr (''https://source.unsplash.com/800x600/?'' @ q))
                     (encodeURIComponent env (ToString env (getProp loc ''name'') @ '' landmark''))) of
          Inl e \<Rightarrow> Inl e
        | Inr img \<Rightarrow>
           Inr \<lparr> loc_id = ''loc-'' @ showInt (Date_now env index) @ ''-'' @ showNat index,
                 name = getProp loc ''name'',
                 position = Some \<lparr> lat = JNum (ToNumber env (elem (getProp loc ''coordinates'') 0)),
                                   lng = JNum (ToNumber env (elem (getProp loc ''coordinates'') 1)) \<rparr>,
                 rating = (if truthy (getProp loc ''rating'') then getProp loc ''rating''
                           else JNum (Finite 4.5)),
                 reviews = (if truthy (getProp loc ''reviews'') then getProp loc ''reviews''
                            else JNum (Finite 1000)),
                 imageUrl = img,
                 description = (if truthy (getProp loc ''description'') then getProp loc ''description''
                                else JStr []) \<rparr>))"

fun chatMap :: "env \<Rightarrow> nat \<Rightarrow> jsval list \<Rightarrow> jserror + location list" where
  "chatMap env i [] = Inr []"
| "chatMap env i (loc # rest) =
     (case chatLocation env i loc of
        Inl e \<Rightarrow> Inl e
      | Inr l \<Rightarrow> (case chatMap env (Suc i) rest of Inl e \<Rightarrow> Inl e | Inr ls \<Rightarrow> Inr (l # ls)))"

definition chatProcessData :: "env \<Rightarrow> jsval \<Rightarrow> location list option" where
  "chatProcessData env data =
     (if nullish data then None
      else (case getProp data ''locations'' of
              JArr locs \<Rightarrow> (case chatMap env 0 locs of Inl e \<Rightarrow> None | Inr ls \<Rightarrow> Some ls)
            | _ \<Rightarrow> None))"

definition chatMessageLocations :: "env \<Rightarrow> string option \<Rightarrow> bool \<Rightarrow> location list option" where
  "chatMessageLocations env jsonContent isStreaming =
     (case jsonContent of
        None \<Rightarrow> None
      | Some js \<Rightarrow>
         (if js = [] \<or> isStreaming then None
          else (case JSON_parse env js of
                  None \<Rightarrow> None
                | Some data \<Rightarrow> chatProcessData env data)))"

section \<open>MapUpdater.tsx: the effect on a new list of locations\<close>

text \<open>
  \<^verbatim>\<open>isValidCoordinates(lat, lng)\<close> of MapUpdater: \<^verbatim>\<open>isNaN\<close> and the comparisons convert their
  operand with \<^verbatim>\<open>Number\<close>.
\<close>

definition isValidCoordinates_map :: "env \<Rightarrow> jsval \<Rightarrow> jsval \<Rightarrow> bool" where
  "isValidCoordinates_map env la lo =
     (ToNumber env la \<noteq> NaN \<and> ToNumber env lo \<noteq> NaN \<and>
      num_le (Finite (- 90)) (ToNumber env la) \<and> num_le (ToNumber env la) (Finite 90) \<and>
      num_le (Finite (- 180)) (ToNumber env lo) \<and> num_le (ToNumber env lo) (Finite 180))"

text \<open>
  The predicate of the filter (lines 84 to 86) on an entry of the list, which may be null,
  as its position and each coordinate may be (\<^verbatim>\<open>loc?.position?.lat != null\<close>).
\<close>

definition isValidLocation :: "env \<Rightarrow> location option \<Rightarrow> bool" where
  "isValidLocation env l =
     (case l of
        None \<Rightarrow> False
      | Some loc \<Rightarrow>
         (case position loc of
            None \<Rightarrow> False
          | Some p \<Rightarrow> \<not> nullish (lat p) \<and> \<not> nullish (lng p) \<and>
                       isValidCoordinates_map env (lat p) (lng p)))"

datatype map_action =
    NoChange
  | FlyTo jsval jsval nat
  | FlyToBounds "(jsval \<times> jsval) list"

definition latlng :: "location option \<Rightarrow> jsval \<times> jsval" where
  "latlng l =
     (case l of
        Some loc \<Rightarrow> (case position loc of Some p \<Rightarrow> (lat p, lng p) | None \<Rightarrow> (JUndefined, JUndefined))
      | None \<Rightarrow> (JUndefined, JUndefined))"

text \<open>
  The argument of the \<^verbatim>\<open>console.log\<close> of lines 73 to 79 reads \<^verbatim>\<open>loc.name\<close> and
  \<^verbatim>\<open>loc.position.lat\<close> of every entry, before the \<^verbatim>\<open>try\<close>: it throws on a null entry and
  on an entry without position.
\<close>

definition logReadable :: "location option \<Rightarrow> bool" where
  "logReadable l = (case l of None \<Rightarrow> False | Some loc \<Rightarrow> position loc \<noteq> None)"

text \<open>
  The second effect of MapUpdater (lines 70 to 158): what it asks of the map, or the
  exception that leaves it.
\<close>

definition updateMapView :: "env \<Rightarrow> location option list \<Rightarrow> location option \<Rightarrow> jserror + map_action" where
  "updateMapView env locations selectedLocation =
     (if locations = [] \<or> selectedLocation \<noteq> None then Inr NoChange
      else if \<not> list_all logReadable locations then Inl TypeError
      else
        (let validLocations = filter (isValidLocation env) locations
         in if validLocations = [] then Inr NoChange
            else if length validLocations = 1
              then Inr (FlyTo (fst (latlng (hd validLocations))) (snd (latlng (hd validLocations))) 13)
            else Inr (FlyToBounds (map latlng validLocations))))"

section \<open>parseTextLocations: the enumerated-list pattern\<close>

text \<open>
  The pattern of line 141,
  \<^verbatim>\<open>/(\d+\.\s*)([^-\n]+?)(?:\s*-\s*([^\n.]+)[.\n]|$)/g\<close>,
  matched the way the backtracking engine does it. The functions work on the text from
  the current position on and give back the text after the match, which is where the next
  \<^verbatim>\<open>exec\<close> starts (\<^verbatim>\<open>lastIndex\<close>).
\<close>

definition isDigit :: "char \<Rightarrow> bool" where
  "isDigit c = (48 \<le> (of_char c :: nat) \<and> (of_char c :: nat) \<le> 57)"

definition newline :: char where
  "newline = CHR 0x0A"

definition nameChar :: "char \<Rightarrow> bool" where
  "nameChar c = (c \<noteq> CHR ''-'' \<and> c \<noteq> newline)"

definition descChar :: "char \<Rightarrow> bool" where
  "descChar c = (c \<noteq> newline \<and> c \<noteq> CHR ''.'')"

text \<open>
  \<^verbatim>\<open>([^\n.]+)[.\n]\<close>: the greedy group takes the whole run; a shorter one would be
  followed by a character of the run, never by a dot or a newline.
\<close>

definition descAt :: "string \<Rightarrow> (string \<times> string) option" where
  "descAt zs =
     (if takeWhile descChar zs \<noteq> [] \<and> dropWhile descChar zs \<noteq> []
      then Some (takeWhile descChar zs, tl (dropWhile descChar zs))
      else None)"

text \<open>The greedy \<^verbatim>\<open>\s*\<close> after the dash: \<open>j\<close> white-space characters, then fewer.\<close>

fun tryDesc :: "string \<Rightarrow> nat \<Rightarrow> (string \<times> string) option" where
  "tryDesc zs 0 = descAt zs"
| "tryDesc zs (Suc j) =
     (case descAt (drop (Suc j) zs) of Some m \<Rightarrow> Some m | None \<Rightarrow> tryDesc zs j)"

text \<open>
  The group \<^verbatim>\<open>(?:\s*-\s*([^\n.]+)[.\n]|$)\<close>: the description branch first (the white space
  before the dash can only be the whole run), then the end of the input.
\<close>

definition matchTail :: "string \<Rightarrow> (string option \<times> string) option" where
  "matchTail zs =
     (case (case dropWhile isSpace zs of
              [] \<Rightarrow> None
            | c # zs2 \<Rightarrow> if c = CHR ''-'' then tryDesc zs2 (length (takeWhile isSpace zs2)) else None) of
        Some (d, r) \<Rightarrow> Some (Some d, r)
      | None \<Rightarrow> if zs = [] then Some (None, []) else None)"

text \<open>The lazy \<^verbatim>\<open>([^-\n]+?)\<close>: one character, then one more while the rest fails.\<close>

fun tryName :: "string \<Rightarrow> string \<Rightarrow> (string \<times> string option \<times> string) option" where
  "tryName acc [] = None"
| "tryName acc (c # cs) =
     (if nameChar c
      then (case matchTail cs of
              Some (d, r) \<Rightarrow> Some (acc @ [c], d, r)
            | None \<Rightarrow> tryName (acc @ [c]) cs)
      else None)"

text \<open>The greedy \<^verbatim>\<open>\s*\<close> of the first group: \<open>k\<close> white-space characters, then fewer.\<close>

fun tryGap :: "string \<Rightarrow> nat \<Rightarrow> (string \<times> string option \<times> string) option" where
  "tryGap r 0 = tryName [] r"
| "tryGap r (Suc k) =
     (case tryName [] (drop (Suc k) r) of Some m \<Rightarrow> Some m | None \<Rightarrow> tryGap r k)"

text \<open>A match that starts here: all the digits (fewer are not followed by the dot).\<close>

definition matchAt :: "string \<Rightarrow> (string \<times> string option \<times> string) option" where
  "matchAt xs =
     (if takeWhile isDigit xs = [] then None
      else (case dropWhile isDigit xs of
              [] \<Rightarrow> None
            | c # r \<Rightarrow> if c = CHR ''.'' then tryGap r (length (takeWhile isSpace r)) else None))"

text \<open>\<^verbatim>\<open>LOCATION_PATTERN.exec(text)\<close>: the leftmost start that matches; name, description, rest.\<close>

fun exec :: "string \<Rightarrow> (string \<times> string option \<times> string) option" where
  "exec [] = None"
| "exec (c # cs) = (case matchAt (c # cs) of Some m \<Rightarrow> Some m | None \<Rightarrow> exec cs)"

text \<open>The object pushed for an accepted name (lines 153 to 164); two random draws.\<close>

definition textLocation :: "env \<Rightarrow> nat \<Rightarrow> nat \<Rightarrow> string \<Rightarrow> string option \<Rightarrow> jserror + location" where
  "textLocation env index k cleanName descr =
     (case getCoordinates env cleanName of
        Inl e \<Rightarrow> Inl e
      | Inr coords \<Rightarrow>
         (case getLocationDescription env cleanName of
            Inl e \<Rightarrow> Inl e
          | Inr knownDescription \<Rightarrow>
             (case generateImageUrl env (JStr cleanName) of
                Inl e \<Rightarrow> Inl e
              | Inr img \<Rightarrow>
                 Inr \<lparr> loc_id = ''loc-'' @ showInt (Date_now env index) @ ''-'' @ showNat index,
                       name = JStr cleanName,
                       position = coords,
                       rating = JNum (Finite (4.5 + Math_random env k * 0.5)),
                       reviews = randomReviews (Math_random env (Suc k)),
                       imageUrl = JStr img,
                       description = (case descr of Some d \<Rightarrow> JStr d | None \<Rightarrow> knownDescription) \<rparr>)))"

subsection \<open>Every match consumes text\<close>

lemma descAt_shorter: "descAt zs = Some (d, r) \<Longrightarrow> length r < length zs"
proof -
  assume a: "descAt zs = Some (d, r)"
  then have r: "r = tl (dropWhile descChar zs)" and ne: "dropWhile descChar zs \<noteq> []"
    by (auto simp: descAt_def split: if_splits)
  have "length (dropWhile descChar zs) \<le> length zs"
    by (rule length_dropWhile_le)
  with r ne show ?thesis
    by (cases "dropWhile descChar zs") auto
qed

lemma tryDesc_shorter: "tryDesc zs j = Some (d, r) \<Longrightarrow> length r < length zs"
proof (induction j)
  case 0
  then show ?case by (simp add: descAt_shorter)
next
  case (Suc j)
  show ?case
  proof (cases "descAt (drop (Suc j) zs)")
    case None
    with Suc show ?thesis by simp
  next
    case (Some m)
    with Suc.prems have "descAt (drop (Suc j) zs) = Some (d, r)" by simp
    then have "length r < length (drop (Suc j) zs)" by (rule descAt_shorter)
    then show ?thesis by simp
  qed
qed

lemma matchTail_shorter: "matchTail zs = Some (d, r) \<Longrightarrow> length r \<le> length zs"
proof -
  assume a: "matchTail zs = Some (d, r)"
  show ?thesis
  proof (cases "dropWhile isSpace zs")
    case Nil
    with a show ?thesis by (auto simp: matchTail_def split: if_splits)
  next
    case (Cons c zs2)
    have le: "length (dropWhile isSpace zs) \<le> length zs" by (rule length_dropWhile_le)
    show ?thesis
    proof (cases "c = CHR ''-''")
      case False
      with a Cons show ?thesis by (auto simp: matchTail_def split: if_splits)
    next
      case True
      show ?thesis
      proof (cases "tryDesc zs2 (length (takeWhile isSpace zs2))")
        case None
        with a Cons True show ?thesis by (auto simp: matchTail_def split: if_splits)
      next
        case (Some m)
        obtain d' r' where m: "m = (d', r')" by (cases m)
        with a Cons True Some have "r = r'" by (simp add: matchTail_def)
        moreover from Some m have "length r' < length zs2" by (simp add: tryDesc_shorter)
        ultimately show ?thesis using le Cons by simp
      qed
    qed
  qed
qed

lemma tryName_shorter: "tryName acc ys = Some (n, d, r) \<Longrightarrow> length r < length ys"
proof (induction ys arbitrary: acc)
  case Nil
  then show ?case by simp
next
  case (Cons c cs)
  from Cons.prems have nc: "nameChar c" by (simp split: if_splits)
  show ?case
  proof (cases "matchTail cs")
    case None
    with Cons.prems nc have "tryName (acc @ [c]) cs = Some (n, d, r)" by simp
    then have "length r < length cs" by (rule Cons.IH)
    then show ?thesis by simp
  next
    case (Some m)
    obtain d' r' where m: "m = (d', r')" by (cases m)
    with Cons.prems nc Some have "r = r'" by simp
    moreover from Some m have "length r' \<le> length cs" by (simp add: matchTail_shorter)
    ultimately show ?thesis by simp
  qed
qed

lemma tryGap_shorter: "tryGap r k = Some (n, d, r') \<Longrightarrow> length r' < length r"
proof (induction k)
  case 0
  then show ?case by (simp add: tryName_shorter)
next
  case (Suc k)
  show ?case
  proof (cases "tryName [] (drop (Suc k) r)")
    case None
    with Suc show ?thesis by simp
  next
    case (Some m)
    with Suc.prems have "tryName [] (drop (Suc k) r) = Some (n, d, r')" by simp
    then have "length r' < length (drop (Suc k) r)" by (rule tryName_shorter)
    then show ?thesis by simp
  qed
qed

lemma matchAt_shorter: "matchAt xs = Some (n, d, r) \<Longrightarrow> length r < length xs"
proof -
  assume a: "matchAt xs = Some (n, d, r)"
  then obtain c r0 where dw: "dropWhile isDigit xs = c # r0" and g: "tryGap r0 (length (takeWhile isSpace r0)) = Some (n, d, r)"
    by (auto simp: matchAt_def split: if_splits list.splits)
  have "length (dropWhile isDigit xs) \<le> length xs" by (rule length_dropWhile_le)
  moreover from g have "length r < length r0" by (rule tryGap_shorter)
  ultimately show ?thesis using dw by simp
qed

lemma exec_shorter: "exec xs = Some (n, d, r) \<Longrightarrow> length r < length xs"
proof (induction xs)
  case Nil
  then show ?case by simp
next
  case (Cons c cs)
  show ?case
  proof (cases "matchAt (c # cs)")
    case None
    with Cons.prems have "exec cs = Some (n, d, r)" by simp
    then have "length r < length cs" by (rule Cons.IH)
    then show ?thesis by simp
  next
    case (Some m)
    with Cons.prems have "matchAt (c # cs) = Some (n, d, r)" by simp
    then show ?thesis by (rule matchAt_shorter)
  qed
qed

text \<open>
  The \<^verbatim>\<open>while\<close> loop of lines 146 to 165 inside its \<^verbatim>\<open>try\<close>: the text still to scan,
  the locations pushed so far, the number of random draws made. The \<^verbatim>\<open>catch\<close> is outside
  the loop, so an exception ends the scan and the function returns what was pushed. Each
  match ends after its start, which is why the loop ends.
\<close>

function textLoop :: "env \<Rightarrow> string \<Rightarrow> location list \<Rightarrow> nat \<Rightarrow> location list" where
  "textLoop env text locations k =
     (case exec text of
        None \<Rightarrow> locations
      | Some (nm, descr, rest) \<Rightarrow>
         (if nm = [] \<or> length nm < 2 then textLoop env rest locations k
          else (case textLocation env (length locations) k (trim nm) descr of
                  Inl e \<Rightarrow> locations
                | Inr l \<Rightarrow> textLoop env rest (locations @ [l]) (k + 2))))"
  by pat_completeness auto
termination
  by (relation "measure (\<lambda>(env, text, locations, k). length text)") (auto simp: exec_shorter)

declare textLoop.simps [simp del]

definition parseTextLocations :: "env \<Rightarrow> string \<Rightarrow> location list" where
  "parseTextLocations env text = textLoop env text [] 0"

section \<open>A concrete runtime\<close>

text \<open>
  One runtime to evaluate the functions on: a fixed clock, a random source that always
  draws one half, collaborators that answer every name but \<open>Atlantis\<close>, a string
  conversion that is only ever asked about \<^verbatim>\<open>"great"\<close> (not a number), and
  \<^verbatim>\<open>JSON.parse\<close> on the replies below. Each reply is one \<^verbatim>\<open>{"locations": [...]}\<close> block whose
  only \<^verbatim>\<open>]\<close> followed by \<^verbatim>\<open>}\<close> is the last one, so the pattern of line 179 matches the
  whole of it; the second pattern of line 30 matches none of them.
\<close>

definition twoText :: string where
  \<open>twoText = ''{"locations":[{"name":"Eiffel Tower","coordinates":[48.8584,2.2945],"description":"Iron tower"},{"name":"Louvre Museum","coordinates":[48.8606,2.3376],"description":"Art museum"}]}''\<close>

definition eiffelRecord :: jsval where
  "eiffelRecord = JObj [(''name'', JStr ''Eiffel Tower''),
                        (''coordinates'', JArr [JNum (Finite 48.8584), JNum (Finite 2.2945)]),
                        (''description'', JStr ''Iron tower'')]"

definition louvreRecord :: jsval where
  "louvreRecord = JObj [(''name'', JStr ''Louvre Museum''),
                        (''coordinates'', JArr [JNum (Finite 48.8606), JNum (Finite 2.3376)]),
                        (''description'', JStr ''Art museum'')]"

definition twoData :: jsval where
  "twoData = JObj [(''locations'', JArr [eiffelRecord, louvreRecord])]"

definition badRecord :: jsval where
  "badRecord = JObj [(''coordinates'', JArr [JNum (Finite 200), JNum (Finite 0)]),
                     (''name'', JStr ''Bad'')]"

definition goodRecord :: jsval where
  "goodRecord = JObj [(''coordinates'', JArr [JNum (Finite 10), JNum (Finite 20)]),
                      (''name'', JStr ''Good'')]"

definition badText :: string where
  \<open>badText = ''{"locations":[{"coordinates":[200,0],"name":"Bad"}]}''\<close>

definition badData :: jsval where
  "badData = JObj [(''locations'', JArr [badRecord])]"

definition badGoodText :: string where
  \<open>badGoodText = ''{"locations":[{"coordinates":[200,0],"name":"Bad"},{"coordinates":[10,20],"name":"Good"}]}''\<close>

definition badGoodData :: jsval where
  "badGoodData = JObj [(''locations'', JArr [badRecord, goodRecord])]"

definition goodBadText :: string where
  \<open>goodBadText = ''{"locations":[{"coordinates":[10,20],"name":"Good"},{"coordinates":[200,0],"name":"Bad"}]}''\<close>

definition goodBadData :: jsval where
  "goodBadData = JObj [(''locations'', JArr [goodRecord, badRecord])]"

definition noCoordsText :: string where
  \<open>noCoordsText = ''{"locations":[{"name":"Nowhere"},{"coordinates":[10,20],"name":"Good"}]}''\<close>

definition noCoordsData :: jsval where
  "noCoordsData = JObj [(''locations'', JArr [JObj [(''name'', JStr ''Nowhere'')], goodRecord])]"

definition ratedText :: string where
  \<open>ratedText = ''{"locations":[{"coordinates":[10,20],"name":"Good","rating":"great"}]}''\<close>

definition ratedData :: jsval where
  "ratedData = JObj [(''locations'', JArr
     [JObj [(''coordinates'', JArr [JNum (Finite 10), JNum (Finite 20)]),
            (''name'', JStr ''Good''),
            (''rating'', JStr ''great'')]])]"

definition parsedReplies :: "(string \<times> jsval) list" where
  "parsedReplies =
     [(twoText, twoData), (badText, badData), (badGoodText, badGoodData),
      (goodBadText, goodBadData), (noCoordsText, noCoordsData), (ratedText, ratedData)]"

definition demoEnv :: env where
  "demoEnv = \<lparr> Date_now = (\<lambda>i. 1700000000000),
               Math_random = (\<lambda>k. 1/2),
               Number_of = (\<lambda>v. NaN),
               String_of = (\<lambda>v. ''[object Object]''),
               JSON_parse = map_of parsedReplies,
               String_match = (\<lambda>p s. if p = LocationsBlock \<and> map_of parsedReplies s \<noteq> None
                                      then Some s else None),
               encodeURIComponent = (\<lambda>s. Inr s),
               generateImageUrl = (\<lambda>v. Inr ''img''),
               getCoordinates = (\<lambda>s. if s = ''Atlantis'' then Inl CollaboratorError
                                      else Inr (Some \<lparr> lat = JNum (Finite 0), lng = JNum (Finite 0) \<rparr>)),
               getLocationDescription = (\<lambda>s. Inr (JStr ''A place'')) \<rparr>"

section \<open>Identifiers within a batch\<close>

lemma below_ten: "d < 10 \<Longrightarrow> d \<in> {0, 1, 2, 3, 4, 5, 6, 7, 8, 9 :: nat}"
  by auto

lemma digit_inj: "a < 10 \<Longrightarrow> b < 10 \<Longrightarrow> digit a = digit b \<Longrightarrow> a = b"
  by (drule below_ten, drule below_ten) (auto simp: digit_def)

lemma digit_not_dash: "d < 10 \<Longrightarrow> digit d \<noteq> CHR ''-''"
  by (drule below_ten) (auto simp: digit_def)

lemma showNat_no_dash: "CHR ''-'' \<notin> set (showNat n)"
proof (induction n rule: showNat.induct)
  case (1 n)
  show ?case
  proof (cases "n < 10")
    case True
    then show ?thesis using digit_not_dash [of n] by (simp add: showNat.simps [of n])
  next
    case False
    have "n mod 10 < 10" by simp
    then have "digit (n mod 10) \<noteq> CHR ''-''" by (rule digit_not_dash)
    with False "1.IH" show ?thesis by (auto simp: showNat.simps [of n])
  qed
qed

lemma showNat_nonempty: "showNat n \<noteq> []"
  by (subst showNat.simps) simp

lemma showNat_inj: "showNat n = showNat m \<Longrightarrow> n = m"
proof (induction n arbitrary: m rule: showNat.induct)
  case (1 n)
  show ?case
  proof (cases "n < 10")
    case True
    note n = this
    show ?thesis
    proof (cases "m < 10")
      case True
      with n "1.prems" show ?thesis
        by (simp add: showNat.simps [of n] showNat.simps [of m] digit_inj)
    next
      case False
      with n "1.prems" have "[digit n] = showNat (m div 10) @ [digit (m mod 10)]"
        by (simp add: showNat.simps [of n] showNat.simps [of m])
      then have "showNat (m div 10) = []" by simp
      then show ?thesis by (simp add: showNat_nonempty)
    qed
  next
    case False
    note n = this
    show ?thesis
    proof (cases "m < 10")
      case True
      with n "1.prems" have "showNat (n div 10) @ [digit (n mod 10)] = [digit m]"
        by (simp add: showNat.simps [of n] showNat.simps [of m])
      then have "showNat (n div 10) = []" by simp
      then show ?thesis by (simp add: showNat_nonempty)
    next
      case False
      with n "1.prems" have e: "showNat (n div 10) @ [digit (n mod 10)] = showNat (m div 10) @ [digit (m mod 10)]"
        by (simp add: showNat.simps [of n] showNat.simps [of m])
      then have "showNat (n div 10) = showNat (m div 10)" by simp
      with n have q: "n div 10 = m div 10" by (rule "1.IH")
      from e have "digit (n mod 10) = digit (m mod 10)" by simp
      then have r: "n mod 10 = m mod 10" by (simp add: digit_inj)
      have "n = 10 * (n div 10) + n mod 10" by simp
      also have "\<dots> = 10 * (m div 10) + m mod 10" using q r by simp
      also have "\<dots> = m" by simp
      finally show ?thesis .
    qed
  qed
qed

lemma after_last_dash:
  assumes "a @ CHR ''-'' # b = a' @ CHR ''-'' # b'"
    and "CHR ''-'' \<notin> set b" and "CHR ''-'' \<notin> set b'"
  shows "b = b'"
proof -
  have "takeWhile (\<lambda>c. c \<noteq> CHR ''-'') (rev (a @ CHR ''-'' # b)) = rev b"
    using assms(2) by (auto simp: takeWhile_tail)
  moreover have "takeWhile (\<lambda>c. c \<noteq> CHR ''-'') (rev (a' @ CHR ''-'' # b')) = rev b'"
    using assms(3) by (auto simp: takeWhile_tail)
  ultimately have "rev b = rev b'" using assms(1) by simp
  then show ?thesis by simp
qed

text \<open>An id that ends in a dash and the index determines the index.\<close>

lemma index_id_inj: "p i @ CHR ''-'' # showNat i = p j @ CHR ''-'' # showNat j \<Longrightarrow> i = j"
  by (rule showNat_inj, erule after_last_dash) (rule showNat_no_dash)+

lemma distinct_index_ids: "distinct (map (\<lambda>i. p i @ CHR ''-'' # showNat i) [m..<n])"
  by (auto simp: distinct_map inj_on_def dest: index_id_inj)


text \<open>
  The two formats of lines 61, 157 and 196, split at their last dash:
  \<^verbatim>\<open>`loc-${Date.now()}-${index}`\<close> and \<^verbatim>\<open>`${Date.now()}-loc-${index}`\<close>.
\<close>

definition locId :: "env \<Rightarrow> nat \<Rightarrow> string" where
  "locId env i = (''loc-'' @ showInt (Date_now env i)) @ CHR ''-'' # showNat i"

definition strictId :: "env \<Rightarrow> nat \<Rightarrow> string" where
  "strictId env i = (showInt (Date_now env i) @ ''-loc'') @ CHR ''-'' # showNat i"

lemma upt_head: "[i..<Suc (i + n)] = i # [Suc i..<Suc (i + n)]"
  by (rule upt_conv_Cons) simp

lemma permissiveLocation_id:
  "permissiveLocation env i k loc = Inr (l, k') \<Longrightarrow> loc_id l = locId env i"
  by (auto simp: permissiveLocation_def locId_def Let_def split: if_splits sum.splits)

lemma chatLocation_id: "chatLocation env i loc = Inr l \<Longrightarrow> loc_id l = locId env i"
  by (auto simp: chatLocation_def locId_def split: if_splits sum.splits)

lemma textLocation_id: "textLocation env i k nm d = Inr l \<Longrightarrow> loc_id l = locId env i"
  by (auto simp: textLocation_def locId_def split: sum.splits)

lemma strictLocation_id: "strictLocation env i loc = Inr l \<Longrightarrow> jl_id l = strictId env i"
  by (auto simp: strictLocation_def strictId_def split: if_splits sum.splits jsval.splits)

lemma permissiveMap_ids:
  "permissiveMap env i k locs = Inr ls \<Longrightarrow> map loc_id ls = map (locId env) [i..<i + length locs]"
proof (induction locs arbitrary: i k ls)
  case Nil
  then show ?case by simp
next
  case (Cons loc rest)
  from Cons.prems obtain l k' ls' where
    l: "permissiveLocation env i k loc = Inr (l, k')" and
    r: "permissiveMap env (Suc i) k' rest = Inr ls'" and
    e: "ls = l # ls'"
    by (auto split: sum.splits)
  from r have "map loc_id ls' = map (locId env) [Suc i..<Suc i + length rest]" by (rule Cons.IH)
  with l e show ?case by (simp add: permissiveLocation_id upt_head del: upt_Suc)
qed

lemma chatMap_ids:
  "chatMap env i locs = Inr ls \<Longrightarrow> map loc_id ls = map (locId env) [i..<i + length locs]"
proof (induction locs arbitrary: i ls)
  case Nil
  then show ?case by simp
next
  case (Cons loc rest)
  from Cons.prems obtain l ls' where
    l: "chatLocation env i loc = Inr l" and
    r: "chatMap env (Suc i) rest = Inr ls'" and
    e: "ls = l # ls'"
    by (auto split: sum.splits)
  from r have "map loc_id ls' = map (locId env) [Suc i..<Suc i + length rest]" by (rule Cons.IH)
  with l e show ?case by (simp add: chatLocation_id upt_head del: upt_Suc)
qed

lemma strictMap_ids:
  "strictMap env i locs = Inr ls \<Longrightarrow> map jl_id ls = map (strictId env) [i..<i + length locs]"
proof (induction locs arbitrary: i ls)
  case Nil
  then show ?case by simp
next
  case (Cons loc rest)
  from Cons.prems obtain l ls' where
    l: "strictLocation env i loc = Inr l" and
    r: "strictMap env (Suc i) rest = Inr ls'" and
    e: "ls = l # ls'"
    by (auto split: sum.splits)
  from r have "map jl_id ls' = map (strictId env) [Suc i..<Suc i + length rest]" by (rule Cons.IH)
  with l e show ?case by (simp add: strictLocation_id upt_head del: upt_Suc)
qed

lemma textLoop_ids:
  "map loc_id locations = map (locId env) [0..<length locations] \<Longrightarrow>
   map loc_id (textLoop env s locations k) =
     map (locId env) [0..<length (textLoop env s locations k)]"
proof (induction env s locations k rule: textLoop.induct)
  case (1 env s locations k)
  show ?case
  proof (cases "exec s")
    case None
    with "1.prems" show ?thesis by (simp add: textLoop.simps [of env s])
  next
    case (Some m)
    obtain nm descr rest where m: "m = (nm, descr, rest)" by (cases m)
    show ?thesis
    proof (cases "nm = [] \<or> length nm < 2")
      case True
      with Some m "1.IH"(1) "1.prems" show ?thesis
        by (simp add: textLoop.simps [of env s])
    next
      case False
      show ?thesis
      proof (cases "textLocation env (length locations) k (trim nm) descr")
        case (Inl e)
        with Some m False "1.prems" show ?thesis
          by (simp add: textLoop.simps [of env s])
      next
        case (Inr l)
        then have "loc_id l = locId env (length locations)" by (rule textLocation_id)
        with "1.prems" have "map loc_id (locations @ [l]) = map (locId env) [0..<length (locations @ [l])]"
          by simp
        with Some m False Inr "1.IH"(2) show ?thesis
          by (simp add: textLoop.simps [of env s])
      qed
    qed
  qed
qed

lemma distinct_locIds: "distinct (map (locId env) [m..<n])"
  unfolding locId_def by (rule distinct_index_ids)

lemma distinct_strictIds: "distinct (map (strictId env) [m..<n])"
  unfolding strictId_def by (rule distinct_index_ids)

lemma extract_cases:
  "extractLocationsFromResponse env s = [] \<or>
   (\<exists>locs. permissiveMap env 0 0 locs = Inr (extractLocationsFromResponse env s))"
  by (auto simp: extractLocationsFromResponse_def extractLocationsFromData_def extractLocationsBody_def
      split: option.splits sum.splits jsval.splits)

section \<open>The coordinate invariant of the data model\<close>

text \<open>
  The specification's invariant on a position, in its words: two finite numbers, the
  latitude between -90 and 90, the longitude between -180 and 180. \<open>isValidCoordinates\<close>
  of the parser accepts exactly the two-element arrays that satisfy it.
\<close>

definition positionInvariant :: "jsval \<Rightarrow> jsval \<Rightarrow> bool" where
  "positionInvariant la lo =
     (case (la, lo) of
        (JNum (Finite a), JNum (Finite b)) \<Rightarrow> - 90 \<le> a \<and> a \<le> 90 \<and> - 180 \<le> b \<and> b \<le> 180
      | _ \<Rightarrow> False)"

lemma num_le_lower: "num_le (Finite a) n \<and> num_le n (Finite b) \<longleftrightarrow> (\<exists>x. n = Finite x \<and> a \<le> x \<and> x \<le> b)"
  by (cases n) auto

lemma isValidCoordinates_iff:
  "isValidCoordinates v \<longleftrightarrow> (\<exists>la lo. v = JArr [la, lo] \<and> positionInvariant la lo)"
proof (cases v)
  case (JArr xs)
  show ?thesis
  proof (cases xs)
    case Nil
    with JArr show ?thesis by simp
  next
    case (Cons a ys)
    note xs = this
    show ?thesis
    proof (cases ys)
      case Nil
      with JArr xs show ?thesis by (cases a) simp_all
    next
      case (Cons b zs)
      note ys = this
      show ?thesis
      proof (cases zs)
        case Nil
        have "isValidCoordinates (JArr [a, b]) = positionInvariant a b"
        proof (cases a)
          case (JNum n)
          note a = this
          show ?thesis
          proof (cases b)
            case (JNum m)
            with a show ?thesis
              by (cases n; cases m) (auto simp: positionInvariant_def)
          qed (simp_all add: a positionInvariant_def split: jsnum.splits)
        qed (simp_all add: positionInvariant_def)
        with JArr xs ys Nil show ?thesis by simp
      next
        case (Cons c ws)
        with JArr xs ys show ?thesis by (cases a; cases b) simp_all
      qed
    qed
  qed
qed simp_all

section \<open>What each callback returns\<close>

lemma strictLocation_Inr:
  "strictLocation env i loc = Inr l \<Longrightarrow>
     isValidCoordinates (getProp loc ''coordinates'') \<and>
     coordinates l = getProp loc ''coordinates'' \<and>
     jl_rating l = number_or_zero env (getProp loc ''rating'') \<and>
     jl_reviews l = number_or_zero env (getProp loc ''reviews'')"
  by (auto simp: strictLocation_def split: if_splits jsval.splits sum.splits)

lemma permissiveLocation_Inr:
  "permissiveLocation env i k loc = Inr (l, k') \<Longrightarrow>
     name l = getProp loc ''name'' \<and>
     position l = Some \<lparr> lat = elem (getProp loc ''coordinates'') 0,
                          lng = elem (getProp loc ''coordinates'') 1 \<rparr> \<and>
     rating l = (if truthy (getProp loc ''rating'') then getProp loc ''rating'' else JNum (Finite 4.5)) \<and>
     reviews l = (if truthy (getProp loc ''reviews'') then getProp loc ''reviews''
                  else randomReviews (Math_random env k))"
  by (auto simp: permissiveLocation_def Let_def split: if_splits sum.splits)

lemma chatLocation_Inr:
  "chatLocation env i loc = Inr l \<Longrightarrow>
     name l = getProp loc ''name'' \<and>
     position l = Some \<lparr> lat = JNum (ToNumber env (elem (getProp loc ''coordinates'') 0)),
                          lng = JNum (ToNumber env (elem (getProp loc ''coordinates'') 1)) \<rparr> \<and>
     rating l = (if truthy (getProp loc ''rating'') then getProp loc ''rating'' else JNum (Finite 4.5)) \<and>
     reviews l = (if truthy (getProp loc ''reviews'') then getProp loc ''reviews'' else JNum (Finite 1000))"
  by (auto simp: chatLocation_def split: if_splits sum.splits)

section \<open>A batch is the callback on each record, in order\<close>

lemma strictMap_nth:
  "strictMap env i locs = Inr ls \<Longrightarrow>
     length ls = length locs \<and> (\<forall>j < length locs. strictLocation env (i + j) (locs ! j) = Inr (ls ! j))"
proof (induction locs arbitrary: i ls)
  case Nil
  then show ?case by simp
next
  case (Cons loc rest)
  from Cons.prems obtain l ls' where
    l: "strictLocation env i loc = Inr l" and
    r: "strictMap env (Suc i) rest = Inr ls'" and
    e: "ls = l # ls'"
    by (auto split: sum.splits)
  from Cons.IH [OF r] have len: "length ls' = length rest"
    and nth: "\<And>j. j < length rest \<Longrightarrow> strictLocation env (Suc i + j) (rest ! j) = Inr (ls' ! j)"
    by simp_all
  show ?case
  proof (intro conjI allI impI)
    show "length ls = length (loc # rest)" using e len by simp
  next
    fix j assume "j < length (loc # rest)"
    then show "strictLocation env (i + j) ((loc # rest) ! j) = Inr (ls ! j)"
      using l e nth by (cases j) simp_all
  qed
qed

lemma permissiveMap_nth:
  "permissiveMap env i k locs = Inr ls \<Longrightarrow>
     length ls = length locs \<and>
     (\<forall>j < length locs. \<exists>k1 k2. permissiveLocation env (i + j) k1 (locs ! j) = Inr (ls ! j, k2))"
proof (induction locs arbitrary: i k ls)
  case Nil
  then show ?case by simp
next
  case (Cons loc rest)
  from Cons.prems obtain l k' ls' where
    l: "permissiveLocation env i k loc = Inr (l, k')" and
    r: "permissiveMap env (Suc i) k' rest = Inr ls'" and
    e: "ls = l # ls'"
    by (auto split: sum.splits)
  from Cons.IH [OF r] have len: "length ls' = length rest"
    and nth: "\<And>j. j < length rest \<Longrightarrow>
                \<exists>k1 k2. permissiveLocation env (Suc i + j) k1 (rest ! j) = Inr (ls' ! j, k2)"
    by simp_all
  show ?case
  proof (intro conjI allI impI)
    show "length ls = length (loc # rest)" using e len by simp
  next
    fix j assume j: "j < length (loc # rest)"
    show "\<exists>k1 k2. permissiveLocation env (i + j) k1 ((loc # rest) ! j) = Inr (ls ! j, k2)"
    proof (cases j)
      case 0
      with l e show ?thesis by auto
    next
      case (Suc j')
      with j have "j' < length rest" by simp
      from nth [OF this] Suc e show ?thesis by simp
    qed
  qed
qed

lemma chatMap_nth:
  "chatMap env i locs = Inr ls \<Longrightarrow>
     length ls = length locs \<and> (\<forall>j < length locs. chatLocation env (i + j) (locs ! j) = Inr (ls ! j))"
proof (induction locs arbitrary: i ls)
  case Nil
  then show ?case by simp
next
  case (Cons loc rest)
  from Cons.prems obtain l ls' where
    l: "chatLocation env i loc = Inr l" and
    r: "chatMap env (Suc i) rest = Inr ls'" and
    e: "ls = l # ls'"
    by (auto split: sum.splits)
  from Cons.IH [OF r] have len: "length ls' = length rest"
    and nth: "\<And>j. j < length rest \<Longrightarrow> chatLocation env (Suc i + j) (rest ! j) = Inr (ls' ! j)"
    by simp_all
  show ?case
  proof (intro conjI allI impI)
    show "length ls = length (loc # rest)" using e len by simp
  next
    fix j assume "j < length (loc # rest)"
    then show "chatLocation env (i + j) ((loc # rest) ! j) = Inr (ls ! j)"
      using l e nth by (cases j) simp_all
  qed
qed

section \<open>The random fallback of the review count\<close>

lemma randomReviews_range:
  assumes "0 \<le> r" and "r < 1"
  shows "\<exists>n::int. randomReviews r = JNum (Finite (of_int n)) \<and> 10000 \<le> n \<and> n < 50000"
proof -
  have "0 \<le> r * 40000" using assms(1) by simp
  then have lo: "0 \<le> \<lfloor>r * 40000\<rfloor>" by simp
  have "r * 40000 < 40000" using assms(2) by simp
  then have hi: "\<lfloor>r * 40000\<rfloor> < 40000" by (simp add: floor_less_iff)
  from lo hi show ?thesis
    by (intro exI [of _ "\<lfloor>r * 40000\<rfloor> + 10000"]) (simp add: randomReviews_def)
qed


section \<open>The sample replies, evaluated\<close>

definition twoStrict :: "json_location list" where
  "twoStrict =
     [\<lparr> jl_id = ''1700000000000-loc-0'', jl_name = ''Eiffel Tower'',
         coordinates = JArr [JNum (Finite 48.8584), JNum (Finite 2.2945)],
         jl_rating = Finite 0, jl_reviews = Finite 0,
         jl_description = ''Iron tower'', image = JStr ''img'' \<rparr>,
      \<lparr> jl_id = ''1700000000000-loc-1'', jl_name = ''Louvre Museum'',
         coordinates = JArr [JNum (Finite 48.8606), JNum (Finite 2.3376)],
         jl_rating = Finite 0, jl_reviews = Finite 0,
         jl_description = ''Art museum'', image = JStr ''img'' \<rparr>]"

definition twoPermissive :: "location list" where
  "twoPermissive =
     [\<lparr> loc_id = ''loc-1700000000000-0'', name = JStr ''Eiffel Tower'',
         position = Some \<lparr> lat = JNum (Finite 48.8584), lng = JNum (Finite 2.2945) \<rparr>,
         rating = JNum (Finite 4.5), reviews = JNum (Finite 30000),
         imageUrl = JStr ''img'', description = JStr ''Iron tower'' \<rparr>,
      \<lparr> loc_id = ''loc-1700000000000-1'', name = JStr ''Louvre Museum'',
         position = Some \<lparr> lat = JNum (Finite 48.8606), lng = JNum (Finite 2.3376) \<rparr>,
         rating = JNum (Finite 4.5), reviews = JNum (Finite 30000),
         imageUrl = JStr ''img'', description = JStr ''Art museum'' \<rparr>]"

lemma showNat_0: "showNat 0 = ''0''"
  by (simp add: showNat.simps digit_def)

lemma showNat_1: "showNat (Suc 0) = ''1''"
  by (simp add: showNat.simps digit_def)

lemma show_clock: "showInt 1700000000000 = ''1700000000000''"
  by (simp add: showInt_def showNat.simps digit_def)

lemma strict_twoText: "parseJsonLocations demoEnv twoText = Inr twoStrict"
  by (simp add: parseJsonLocations_def demoEnv_def parsedReplies_def twoText_def twoData_def
      eiffelRecord_def louvreRecord_def strictLocation_def trim_def isSpace_def number_or_zero_def show_clock showNat_0 showNat_1
      twoStrict_def)

lemma permissive_twoText: "extractLocationsFromResponse demoEnv twoText = twoPermissive"
  by (simp add: extractLocationsFromResponse_def extractLocationsFromData_def
      extractLocationsBody_def demoEnv_def parsedReplies_def twoText_def twoData_def
      eiffelRecord_def louvreRecord_def permissiveLocation_def randomReviews_def show_clock showNat_0 showNat_1 twoPermissive_def)

section \<open>The permissive map keeps every record; the strict map stops at the first bad one\<close>







section \<open>The concrete runtime on the sample replies\<close>

lemma demo_parse:
  "JSON_parse demoEnv twoText = Some twoData"
  "JSON_parse demoEnv badText = Some badData"
  "JSON_parse demoEnv badGoodText = Some badGoodData"
  "JSON_parse demoEnv goodBadText = Some goodBadData"
  "JSON_parse demoEnv noCoordsText = Some noCoordsData"
  "JSON_parse demoEnv ratedText = Some ratedData"
  by (simp_all add: demoEnv_def parsedReplies_def twoText_def badText_def badGoodText_def
      goodBadText_def noCoordsText_def ratedText_def)

lemma demo_match:
  "String_match demoEnv LocationsBlock twoText = Some twoText"
  "String_match demoEnv LocationsBlock badText = Some badText"
  "String_match demoEnv LocationsBlock badGoodText = Some badGoodText"
  "String_match demoEnv LocationsBlock goodBadText = Some goodBadText"
  "String_match demoEnv LocationsBlock noCoordsText = Some noCoordsText"
  "String_match demoEnv LocationsBlock ratedText = Some ratedText"
  using demo_parse by (simp_all add: demoEnv_def)

lemma demo_services:
  "Date_now demoEnv i = 1700000000000"
  "Math_random demoEnv k = 1/2"
  "generateImageUrl demoEnv v = Inr ''img''"
  "encodeURIComponent demoEnv q = Inr q"
  "getLocationDescription demoEnv n = Inr (JStr ''A place'')"
  by (simp_all add: demoEnv_def)

lemmas demo_eval = demo_parse demo_match demo_services show_clock showNat_0 showNat_1

lemma permissive_badText:
  "extractLocationsFromResponse demoEnv badText =
     [\<lparr> loc_id = ''loc-1700000000000-0'', name = JStr ''Bad'',
         position = Some \<lparr> lat = JNum (Finite 200), lng = JNum (Finite 0) \<rparr>,
         rating = JNum (Finite 4.5), reviews = JNum (Finite 30000),
         imageUrl = JStr ''img'', description = JStr ''Visit Bad'' \<rparr>]"
  by (simp add: extractLocationsFromResponse_def extractLocationsFromData_def
      extractLocationsBody_def demo_eval badData_def badRecord_def
      permissiveLocation_def randomReviews_def)

lemma chat_badText:
  "chatMessageLocations demoEnv (Some badText) False =
     Some [\<lparr> loc_id = ''loc-1700000000000-0'', name = JStr ''Bad'',
              position = Some \<lparr> lat = JNum (Finite 200), lng = JNum (Finite 0) \<rparr>,
              rating = JNum (Finite 4.5), reviews = JNum (Finite 1000),
              imageUrl = JStr ''https://source.unsplash.com/800x600/?Bad landmark'',
              description = JStr [] \<rparr>]"
proof -
  have "badText \<noteq> []" by (simp add: badText_def)
  then show ?thesis
    by (simp add: chatMessageLocations_def chatProcessData_def demo_eval badData_def badRecord_def
        chatLocation_def)
qed

lemma findLocations_demo:
  "JSON_parse demoEnv t = Some (JObj [(''locations'', JArr locs)]) \<Longrightarrow>
   String_match demoEnv LocationsBlock t = Some t \<Longrightarrow>
   findLocations demoEnv t [LocationsBlock, SingleLocation] = locs"
  by simp

lemma strict_badText:
  "parseJsonLocations demoEnv badText = Inl (InvalidCoordinatesFor (JStr ''Bad''))"
  by (simp add: parseJsonLocations_def demo_eval badData_def badRecord_def strictLocation_def)





section \<open>What the text scan returns, and the batches behind each entry point\<close>

lemma textLocation_Inr:
  "textLocation env i k nm d = Inr l \<Longrightarrow>
     name l = JStr nm \<and>
     rating l = JNum (Finite (4.5 + Math_random env k * 0.5)) \<and>
     reviews l = randomReviews (Math_random env (Suc k))"
  by (auto simp: textLocation_def split: sum.splits)

lemma textLoop_elems:
  "l \<in> set (textLoop env s locations k) \<Longrightarrow>
     l \<in> set locations \<or>
     (\<exists>i k' raw d. 2 \<le> length raw \<and> textLocation env i k' (trim raw) d = Inr l)"
proof (induction env s locations k rule: textLoop.induct)
  case (1 env s locations k)
  show ?case
  proof (cases "exec s")
    case None
    with "1.prems" show ?thesis by (simp add: textLoop.simps [of env s])
  next
    case (Some m)
    obtain nm descr rest where m: "m = (nm, descr, rest)" by (cases m)
    show ?thesis
    proof (cases "nm = [] \<or> length nm < 2")
      case True
      with Some m "1.prems" have "l \<in> set (textLoop env rest locations k)"
        by (simp add: textLoop.simps [of env s])
      with Some m True "1.IH"(1) show ?thesis by simp
    next
      case False
      show ?thesis
      proof (cases "textLocation env (length locations) k (trim nm) descr")
        case (Inl e)
        with Some m False "1.prems" show ?thesis
          by (simp add: textLoop.simps [of env s])
      next
        case (Inr new)
        with Some m False "1.prems" have "l \<in> set (textLoop env rest (locations @ [new]) (k + 2))"
          by (simp add: textLoop.simps [of env s])
        with Some m False Inr "1.IH"(2)
        have "l \<in> set (locations @ [new]) \<or>
              (\<exists>i k' raw d. 2 \<le> length raw \<and> textLocation env i k' (trim raw) d = Inr l)"
          by simp
        moreover from False have "2 \<le> length nm" by simp
        ultimately show ?thesis using Inr by auto
      qed
    qed
  qed
qed

lemma parseText_elems:
  "l \<in> set (parseTextLocations env s) \<Longrightarrow>
     \<exists>i k raw d. 2 \<le> length raw \<and> textLocation env i k (trim raw) d = Inr l"
  unfolding parseTextLocations_def by (drule textLoop_elems) simp

lemma extractBody_map:
  "extractLocationsBody env data = Inr batch \<Longrightarrow> getProp data ''locations'' = JArr locs \<Longrightarrow>
     permissiveMap env 0 0 locs = Inr batch"
  by (simp add: extractLocationsBody_def split: if_splits)

lemma chatProcess_map:
  "chatProcessData env data = Some batch \<Longrightarrow> getProp data ''locations'' = JArr locs \<Longrightarrow>
     chatMap env 0 locs = Inr batch"
  by (simp add: chatProcessData_def split: if_splits sum.splits)

lemma parseJson_map:
  "parseJsonLocations env s = Inr batch \<Longrightarrow>
     strictMap env 0 (findLocations env s [LocationsBlock, SingleLocation]) = Inr batch"
  by (simp add: parseJsonLocations_def Let_def split: if_splits)

lemma number_or_zero_fallback:
  "nullish v \<or> ToNumber env v = NaN \<Longrightarrow> number_or_zero env v = Finite 0"
  by (cases v) (auto simp: number_or_zero_def)

lemma nullish_falsy: "nullish v \<Longrightarrow> \<not> truthy v"
  by (cases v) simp_all

definition twoChat :: "location list" where
  "twoChat =
     [\<lparr> loc_id = ''loc-1700000000000-0'', name = JStr ''Eiffel Tower'',
         position = Some \<lparr> lat = JNum (Finite 48.8584), lng = JNum (Finite 2.2945) \<rparr>,
         rating = JNum (Finite 4.5), reviews = JNum (Finite 1000),
         imageUrl = JStr ''https://source.unsplash.com/800x600/?Eiffel Tower landmark'',
         description = JStr ''Iron tower'' \<rparr>,
      \<lparr> loc_id = ''loc-1700000000000-1'', name = JStr ''Louvre Museum'',
         position = Some \<lparr> lat = JNum (Finite 48.8606), lng = JNum (Finite 2.3376) \<rparr>,
         rating = JNum (Finite 4.5), reviews = JNum (Finite 1000),
         imageUrl = JStr ''https://source.unsplash.com/800x600/?Louvre Museum landmark'',
         description = JStr ''Art museum'' \<rparr>]"

definition rome :: location where
  "rome = \<lparr> loc_id = ''loc-1700000000000-0'', name = JStr ''Rome'',
            position = Some \<lparr> lat = JNum (Finite 0), lng = JNum (Finite 0) \<rparr>,
            rating = JNum (Finite 4.75), reviews = JNum (Finite 30000),
            imageUrl = JStr ''img'', description = JStr ''old'' \<rparr>"

lemma chat_twoData: "chatProcessData demoEnv twoData = Some twoChat"
  by (simp add: chatProcessData_def twoData_def eiffelRecord_def louvreRecord_def chatLocation_def
      demo_eval twoChat_def)

lemma chat_twoText: "chatMessageLocations demoEnv (Some twoText) False = Some twoChat"
proof -
  have "twoText \<noteq> []" by (simp add: twoText_def)
  then show ?thesis by (simp add: chatMessageLocations_def demo_eval chat_twoData)
qed

lemma body_twoData: "extractLocationsBody demoEnv twoData = Inr twoPermissive"
  by (simp add: extractLocationsBody_def twoData_def eiffelRecord_def louvreRecord_def
      permissiveLocation_def randomReviews_def demo_eval twoPermissive_def)

lemma find_twoText:
  "findLocations demoEnv twoText [LocationsBlock, SingleLocation] = [eiffelRecord, louvreRecord]"
  by (simp add: demo_eval twoData_def)

lemma exec_rome: "exec ''1. Rome - old.'' = Some (''Rome'', Some ''old'', [])"
  by (simp add: matchAt_def isDigit_def isSpace_def nameChar_def descChar_def newline_def
      matchTail_def descAt_def)

lemma text_rome: "parseTextLocations demoEnv ''1. Rome - old.'' = [rome]"
  by (simp add: parseTextLocations_def textLoop.simps exec_rome textLocation_def trim_def
      isSpace_def demoEnv_def randomReviews_def show_clock showNat_0 rome_def del: exec.simps(2))

lemma demo_random: "\<forall>k. 0 \<le> Math_random demoEnv k \<and> Math_random demoEnv k < 1"
  by (simp add: demo_eval)

section \<open>The RawLocation interface\<close>












section \<open>The text scan on sample texts\<close>

lemma textLoop_extends: "\<exists>new. textLoop env s locations k = locations @ new"
proof (induction env s locations k rule: textLoop.induct)
  case (1 env s locations k)
  show ?case
  proof (cases "exec s")
    case None
    then show ?thesis by (simp add: textLoop.simps [of env s])
  next
    case (Some m)
    obtain nm descr rest where m: "m = (nm, descr, rest)" by (cases m)
    show ?thesis
    proof (cases "nm = [] \<or> length nm < 2")
      case True
      with Some m "1.IH"(1) show ?thesis by (simp add: textLoop.simps [of env s])
    next
      case False
      show ?thesis
      proof (cases "textLocation env (length locations) k (trim nm) descr")
        case (Inl e)
        with Some m False show ?thesis by (simp add: textLoop.simps [of env s])
      next
        case (Inr l)
        with Some m False "1.IH"(2) obtain new where
          "textLoop env rest (locations @ [l]) (k + 2) = (locations @ [l]) @ new"
          by blast
        with Some m False Inr show ?thesis by (simp add: textLoop.simps [of env s])
      qed
    qed
  qed
qed

lemma exec_atlantis:
  "exec ''1. Atlantis - lost. 2. Rome - old.'' = Some (''Atlantis'', Some ''lost'', '' 2. Rome - old.'')"
  by (simp add: matchAt_def isDigit_def isSpace_def nameChar_def descChar_def newline_def
      matchTail_def descAt_def)

lemma exec_rome2: "exec '' 2. Rome - old.'' = Some (''Rome'', Some ''old'', [])"
  by (simp add: matchAt_def isDigit_def isSpace_def nameChar_def descChar_def newline_def
      matchTail_def descAt_def)



lemma demo_atlantis: "getCoordinates demoEnv ''Atlantis'' = Inl CollaboratorError"
  by (simp add: demoEnv_def)


lemma text_atlantis: "parseTextLocations demoEnv ''1. Atlantis - lost. 2. Rome - old.'' = []"
  by (simp add: parseTextLocations_def textLoop.simps exec_atlantis textLocation_def trim_def
      isSpace_def demoEnv_def del: exec.simps(2))

lemma text_rome2: "parseTextLocations demoEnv '' 2. Rome - old.'' = [rome]"
  by (simp add: parseTextLocations_def textLoop.simps exec_rome2 textLocation_def trim_def
      isSpace_def demoEnv_def randomReviews_def show_clock showNat_0 rome_def del: exec.simps(2))


section \<open>The map update on readable lists\<close>


lemma isValidLocation_iff:
  "isValidLocation env l \<longleftrightarrow>
     (\<exists>loc p a b. l = Some loc \<and> position loc = Some p \<and>
        \<not> nullish (lat p) \<and> \<not> nullish (lng p) \<and>
        ToNumber env (lat p) = Finite a \<and> ToNumber env (lng p) = Finite b \<and>
        - 90 \<le> a \<and> a \<le> 90 \<and> - 180 \<le> b \<and> b \<le> 180)"
proof -
  have r: "(n \<noteq> NaN \<and> num_le (Finite lo) n \<and> num_le n (Finite hi)) \<longleftrightarrow>
           (\<exists>x. n = Finite x \<and> lo \<le> x \<and> x \<le> hi)" for n lo hi
    by (cases n) auto
  show ?thesis
  proof (cases l)
    case None
    then show ?thesis by (simp add: isValidLocation_def)
  next
    case (Some loc)
    show ?thesis
    proof (cases "position loc")
      case None
      with Some show ?thesis by (simp add: isValidLocation_def)
    next
      case (Some p)
      have "isValidCoordinates_map env (lat p) (lng p) \<longleftrightarrow>
          (\<exists>a b. ToNumber env (lat p) = Finite a \<and> ToNumber env (lng p) = Finite b \<and>
             - 90 \<le> a \<and> a \<le> 90 \<and> - 180 \<le> b \<and> b \<le> 180)"
        using r [of "ToNumber env (lat p)" "- 90" 90] r [of "ToNumber env (lng p)" "- 180" 180]
        unfolding isValidCoordinates_map_def by auto
      with \<open>l = Some loc\<close> Some show ?thesis by (auto simp: isValidLocation_def)
    qed
  qed
qed

lemma updateMapView_readable:
  assumes "list_all logReadable locations"
  shows "updateMapView env locations None =
     Inr (if filter (isValidLocation env) locations = [] then NoChange
          else if length (filter (isValidLocation env) locations) = 1
            then FlyTo (fst (latlng (hd (filter (isValidLocation env) locations))))
                       (snd (latlng (hd (filter (isValidLocation env) locations)))) 13
          else FlyToBounds (map latlng (filter (isValidLocation env) locations)))"
proof (cases "locations = []")
  case True
  then show ?thesis by (simp add: updateMapView_def)
next
  case False
  with assms show ?thesis by (simp add: updateMapView_def Let_def)
qed

section \<open>The stream splitter of the specification\<close>

text \<open>
  Modelled from the spec: the module \<^verbatim>\<open>services/chat/messageProcessor\<close> that defines
  \<open>processStreamingMessage\<close> is not among the sources (only its callers in App.tsx and
  ChatMessage.tsx are). This is the StreamParseResult of section 3, the triple one call
  of the splitter returns.
\<close>

record StreamParseResult =
  textContent :: string
  jsonContent :: "string option"
  weatherLocation :: "string option"



text \<open>
  Modelled from the spec: "locate the start of a JSON object that begins a line or
  follows sentence-ending punctuation". A brace may start the object at the beginning of
  the text, after a newline, or after a full stop, an exclamation or a question mark,
  spaces in between allowed (the scenario of section 8 has \<^verbatim>\<open>places... {\<close>). The first such
  brace is taken; the prose before it and the text from it on are returned.
\<close>

definition mayStartAfter :: "bool \<Rightarrow> char \<Rightarrow> bool" where
  "mayStartAfter b c =
     (if c = newline \<or> c = CHR ''.'' \<or> c = CHR ''!'' \<or> c = CHR ''?'' then True
      else if c = CHR '' '' then b
      else False)"

fun findJsonStart :: "bool \<Rightarrow> string \<Rightarrow> string \<Rightarrow> (string \<times> string) option" where
  "findJsonStart b prose [] = None"
| "findJsonStart b prose (c # cs) =
     (if c = CHR ''{'' \<and> b then Some (prose, c # cs)
      else findJsonStart (mayStartAfter b c) (prose @ [c]) cs)"

text \<open>
  Modelled from the spec: "using brace-depth counting ... return jsonContent = null if
  no balanced object can be found yet". The object ends at the brace that brings the
  depth back to zero.
\<close>

fun balancedObject :: "nat \<Rightarrow> string \<Rightarrow> string \<Rightarrow> string option" where
  "balancedObject depth seen [] = None"
| "balancedObject depth seen (c # cs) =
     (if c = CHR ''{'' then balancedObject (Suc depth) (seen @ [c]) cs
      else if c = CHR ''}'' then
        (case depth of
           0 \<Rightarrow> None
         | Suc 0 \<Rightarrow> Some (seen @ [c])
         | Suc (Suc d) \<Rightarrow> balancedObject (Suc d) (seen @ [c]) cs)
      else balancedObject depth (seen @ [c]) cs)"

text \<open>
  Modelled from the spec: "whitespace-normalized (collapse 3+ newlines to 2, collapse
  runs of spaces to one, trim ends)".
\<close>

fun collapseNewlines :: "nat \<Rightarrow> string \<Rightarrow> string" where
  "collapseNewlines n [] = []"
| "collapseNewlines n (c # cs) =
     (if c = newline then (if 2 \<le> n then collapseNewlines n cs else c # collapseNewlines (Suc n) cs)
      else c # collapseNewlines 0 cs)"

fun collapseSpaces :: "bool \<Rightarrow> string \<Rightarrow> string" where
  "collapseSpaces afterSpace [] = []"
| "collapseSpaces afterSpace (c # cs) =
     (if c = CHR '' '' then (if afterSpace then collapseSpaces True cs else c # collapseSpaces True cs)
      else c # collapseSpaces False cs)"

definition normalizeProse :: "string \<Rightarrow> string" where
  "normalizeProse s = trim (collapseSpaces False (collapseNewlines 0 s))"

text \<open>
  Modelled from the spec: the contract of section 4.1. Weather detection takes
  precedence and gives the text before the marker, the place, and no JSON; otherwise the
  prose before the JSON start is the text content and the balanced object, if there is
  one yet, the JSON content. The recogniser of the weather markers is a parameter: the
  spec names one phrase and leaves the others open.
\<close>

definition processStreamingMessage ::
    "(string \<Rightarrow> (string \<times> string) option) \<Rightarrow> string \<Rightarrow> StreamParseResult" where
  "processStreamingMessage weatherMarker s =
     (case weatherMarker s of
        Some (before, place) \<Rightarrow>
          \<lparr> textContent = before, jsonContent = None, weatherLocation = Some place \<rparr>
      | None \<Rightarrow>
         (case findJsonStart True [] s of
            None \<Rightarrow> \<lparr> textContent = normalizeProse s, jsonContent = None, weatherLocation = None \<rparr>
          | Some (prose, fragment) \<Rightarrow>
              \<lparr> textContent = normalizeProse prose,
                jsonContent = balancedObject 0 [] fragment,
                weatherLocation = None \<rparr>))"

text \<open>
  Modelled from the spec: the one marker the spec names, "I should check the weather in
  X". The place is what follows the phrase, up to a full stop or the end of the line.
\<close>

fun findPhrase :: "string \<Rightarrow> string \<Rightarrow> string \<Rightarrow> (string \<times> string) option" where
  "findPhrase phrase before [] = None"
| "findPhrase phrase before (c # cs) =
     (if take (length phrase) (c # cs) = phrase then Some (before, drop (length phrase) (c # cs))
      else findPhrase phrase (before @ [c]) cs)"

definition checkWeatherMarker :: "string \<Rightarrow> (string \<times> string) option" where
  "checkWeatherMarker s =
     (case findPhrase ''I should check the weather in '' [] s of
        None \<Rightarrow> None
      | Some (before, after) \<Rightarrow> Some (before, takeWhile (\<lambda>c. c \<noteq> CHR ''.'' \<and> c \<noteq> newline) after))"

subsection \<open>More text changes neither the start nor a balanced object\<close>





definition partialReply :: string where
  \<open>partialReply = ''Here are some places... {"locations": [{"name": "X"''\<close>

lemma split_partialReply:
  "processStreamingMessage checkWeatherMarker partialReply =
     \<lparr> textContent = ''Here are some places...'', jsonContent = None, weatherLocation = None \<rparr>"
  by (simp add: processStreamingMessage_def checkWeatherMarker_def mayStartAfter_def newline_def
      normalizeProse_def trim_def isSpace_def partialReply_def)





section \<open>Claims\<close>

text \<open>
  C6. In every batch that one call of \<open>parseJsonLocations\<close>, of
  \<open>extractLocationsFromResponse\<close> or of \<open>parseTextLocations\<close> returns, the ids are
  pairwise distinct, whatever the clock shows: each id ends in a dash and the decimal
  index of its element, and no two elements of a batch have the same index.
\<close>

theorem batch_ids_distinct:
  "(parseJsonLocations env s = Inr batch \<longrightarrow> distinct (map jl_id batch)) \<and>
   distinct (map loc_id (extractLocationsFromResponse env s)) \<and>
   distinct (map loc_id (parseTextLocations env s))"
proof (intro conjI impI)
  assume "parseJsonLocations env s = Inr batch"
  then obtain locs where "strictMap env 0 locs = Inr batch"
    by (auto simp: parseJsonLocations_def Let_def split: if_splits)
  then have "map jl_id batch = map (strictId env) [0..<0 + length locs]" by (rule strictMap_ids)
  then show "distinct (map jl_id batch)" by (simp add: distinct_strictIds)
next
  from extract_cases [of env s] show "distinct (map loc_id (extractLocationsFromResponse env s))"
  proof
    assume "extractLocationsFromResponse env s = []"
    then show ?thesis by simp
  next
    assume "\<exists>locs. permissiveMap env 0 0 locs = Inr (extractLocationsFromResponse env s)"
    then obtain locs where "permissiveMap env 0 0 locs = Inr (extractLocationsFromResponse env s)" ..
    then have "map loc_id (extractLocationsFromResponse env s) = map (locId env) [0..<0 + length locs]"
      by (rule permissiveMap_ids)
    then show ?thesis by (simp add: distinct_locIds)
  qed
next
  have "map loc_id (parseTextLocations env s) =
        map (locId env) [0..<length (parseTextLocations env s)]"
    unfolding parseTextLocations_def by (rule textLoop_ids) simp
  then show "distinct (map loc_id (parseTextLocations env s))"
    by (simp add: distinct_locIds)
qed


theorem batch_ids_distinct_witness:
  "parseJsonLocations demoEnv twoText = Inr twoStrict \<and> length twoStrict = 2 \<and>
   distinct (map jl_id twoStrict) \<and>
   length (extractLocationsFromResponse demoEnv twoText) = 2 \<and>
   distinct (map loc_id (extractLocationsFromResponse demoEnv twoText)) \<and>
   distinct (map loc_id (parseTextLocations demoEnv ''1. Rome - old. 2. Oslo - cold.''))"
proof -
  have a: "parseJsonLocations demoEnv twoText = Inr twoStrict" by (rule strict_twoText)
  have b: "distinct (map jl_id twoStrict) \<and>
           distinct (map loc_id (extractLocationsFromResponse demoEnv twoText))"
    using batch_ids_distinct [of demoEnv twoText twoStrict] a by simp
  have c: "distinct (map loc_id (parseTextLocations demoEnv ''1. Rome - old. 2. Oslo - cold.''))"
    using batch_ids_distinct [of demoEnv "''1. Rome - old. 2. Oslo - cold.''" twoStrict] by simp
  have d: "length twoStrict = 2" by (simp add: twoStrict_def)
  have e: "length (extractLocationsFromResponse demoEnv twoText) = 2"
    by (simp add: permissive_twoText twoPermissive_def)
  from a b c d e show ?thesis by simp
qed

text \<open>
  C1, as the code has it. Every location in a batch that the strict \<open>parseJsonLocations\<close>
  returns, for any input string, carries a two-element coordinates array that satisfies
  the invariant. (The permissive parser and the chat message make no such check, see the
  counterexample below; MapUpdater filters what they let through.)
\<close>

theorem strict_coordinates_in_range:
  assumes "parseJsonLocations env s = Inr batch" and "l \<in> set batch"
  shows "\<exists>la lo. coordinates l = JArr [la, lo] \<and> positionInvariant la lo"
proof -
  from assms(1) obtain locs where m: "strictMap env 0 locs = Inr batch"
    by (auto simp: parseJsonLocations_def Let_def split: if_splits)
  from assms(2) obtain j where j: "j < length batch" "batch ! j = l"
    by (auto simp: in_set_conv_nth)
  from strictMap_nth [OF m] j have "strictLocation env (0 + j) (locs ! j) = Inr l" by auto
  then have "isValidCoordinates (coordinates l)" by (auto dest: strictLocation_Inr)
  then show ?thesis by (simp add: isValidCoordinates_iff)
qed

theorem strict_coordinates_in_range_witness:
  "parseJsonLocations demoEnv twoText = Inr twoStrict \<and> hd twoStrict \<in> set twoStrict \<and>
   (\<exists>la lo. coordinates (hd twoStrict) = JArr [la, lo] \<and> positionInvariant la lo)"
proof -
  have a: "parseJsonLocations demoEnv twoText = Inr twoStrict" by (rule strict_twoText)
  have b: "hd twoStrict \<in> set twoStrict" by (simp add: twoStrict_def)
  from strict_coordinates_in_range [OF a b] a b show ?thesis by simp
qed

text \<open>
  The permissive parser and the chat message build a location at latitude 200 from the
  reply \<^verbatim>\<open>{"locations":[{"coordinates":[200,0],"name":"Bad"}]}\<close>.
\<close>

theorem permissive_out_of_range_counterexample:
  "map position (extractLocationsFromResponse demoEnv badText) =
     [Some \<lparr> lat = JNum (Finite 200), lng = JNum (Finite 0) \<rparr>] \<and>
   map_option (map position) (chatMessageLocations demoEnv (Some badText) False) =
     Some [Some \<lparr> lat = JNum (Finite 200), lng = JNum (Finite 0) \<rparr>] \<and>
   \<not> positionInvariant (JNum (Finite 200)) (JNum (Finite 0))"
  by (simp add: permissive_badText chat_badText positionInvariant_def)










text \<open>
  C4, as the code has it. For a record whose review count is absent or null, the
  permissive parser gives an integer in [10000, 50000) when the random source draws from
  [0, 1), as does the text scan for every location; the chat message gives 1000 and the
  strict parser gives 0.
\<close>

theorem reviews_defaults:
  "(getProp data ''locations'' = JArr locs \<and> j < length locs \<and>
    nullish (getProp (locs ! j) ''reviews'') \<longrightarrow>
      ((\<forall>k. 0 \<le> Math_random env k \<and> Math_random env k < 1) \<and>
       extractLocationsBody env data = Inr batch
         \<longrightarrow> (\<exists>n::int. reviews (batch ! j) = JNum (Finite (of_int n)) \<and> 10000 \<le> n \<and> n < 50000)) \<and>
      (chatProcessData env data = Some cbatch \<longrightarrow> reviews (cbatch ! j) = JNum (Finite 1000))) \<and>
   (parseJsonLocations env s = Inr sbatch \<and> j < length sbatch \<and>
    nullish (getProp (findLocations env s [LocationsBlock, SingleLocation] ! j) ''reviews'')
      \<longrightarrow> jl_reviews (sbatch ! j) = Finite 0) \<and>
   ((\<forall>k. 0 \<le> Math_random env k \<and> Math_random env k < 1) \<and> l \<in> set (parseTextLocations env s)
      \<longrightarrow> (\<exists>n::int. reviews l = JNum (Finite (of_int n)) \<and> 10000 \<le> n \<and> n < 50000))"
proof -
  have permissive: "\<exists>n::int. reviews (batch ! j) = JNum (Finite (of_int n)) \<and> 10000 \<le> n \<and> n < 50000"
    if a: "getProp data ''locations'' = JArr locs" "j < length locs"
      "nullish (getProp (locs ! j) ''reviews'')"
      "\<forall>k. 0 \<le> Math_random env k \<and> Math_random env k < 1"
      "extractLocationsBody env data = Inr batch"
  proof -
    from a(5) a(1) have "permissiveMap env 0 0 locs = Inr batch" by (rule extractBody_map)
    from permissiveMap_nth [OF this] a(2)
    obtain k1 k2 where "permissiveLocation env (0 + j) k1 (locs ! j) = Inr (batch ! j, k2)" by blast
    from permissiveLocation_Inr [OF this] a(3)
    have "reviews (batch ! j) = randomReviews (Math_random env k1)" by (simp add: nullish_falsy)
    moreover from a(4) have "0 \<le> Math_random env k1" "Math_random env k1 < 1" by simp_all
    ultimately show ?thesis using randomReviews_range by simp
  qed
  have chat: "reviews (cbatch ! j) = JNum (Finite 1000)"
    if a: "getProp data ''locations'' = JArr locs" "j < length locs"
      "nullish (getProp (locs ! j) ''reviews'')" "chatProcessData env data = Some cbatch"
  proof -
    from a(4) a(1) have "chatMap env 0 locs = Inr cbatch" by (rule chatProcess_map)
    from chatMap_nth [OF this] a(2)
    have "chatLocation env (0 + j) (locs ! j) = Inr (cbatch ! j)" by blast
    from chatLocation_Inr [OF this] a(3) show ?thesis by (simp add: nullish_falsy)
  qed
  have strict: "jl_reviews (sbatch ! j) = Finite 0"
    if a: "parseJsonLocations env s = Inr sbatch" "j < length sbatch"
      "nullish (getProp (findLocations env s [LocationsBlock, SingleLocation] ! j) ''reviews'')"
  proof -
    let ?locs = "findLocations env s [LocationsBlock, SingleLocation]"
    from a(1) have m: "strictMap env 0 ?locs = Inr sbatch" by (rule parseJson_map)
    from strictMap_nth [OF m] a(2)
    have "strictLocation env (0 + j) (?locs ! j) = Inr (sbatch ! j)" by simp
    from strictLocation_Inr [OF this] a(3) show ?thesis by (simp add: number_or_zero_fallback)
  qed
  have text_path: "\<exists>n::int. reviews l = JNum (Finite (of_int n)) \<and> 10000 \<le> n \<and> n < 50000"
    if a: "\<forall>k. 0 \<le> Math_random env k \<and> Math_random env k < 1" "l \<in> set (parseTextLocations env s)"
  proof -
    from parseText_elems [OF a(2)] obtain i k raw d where
      "textLocation env i k (trim raw) d = Inr l" by blast
    from textLocation_Inr [OF this]
    have r: "reviews l = randomReviews (Math_random env (Suc k))" by simp
    from a(1) have "0 \<le> Math_random env (Suc k)" "Math_random env (Suc k) < 1" by simp_all
    with r show ?thesis using randomReviews_range by simp
  qed
  from permissive chat strict text_path show ?thesis by blast
qed

theorem reviews_defaults_witness:
  "getProp twoData ''locations'' = JArr [eiffelRecord, louvreRecord] \<and>
   nullish (getProp ([eiffelRecord, louvreRecord] ! 1) ''reviews'') \<and>
   extractLocationsBody demoEnv twoData = Inr twoPermissive \<and>
   (\<exists>n::int. reviews (twoPermissive ! 1) = JNum (Finite (of_int n)) \<and> 10000 \<le> n \<and> n < 50000) \<and>
   chatProcessData demoEnv twoData = Some twoChat \<and>
   reviews (twoChat ! 1) = JNum (Finite 1000) \<and>
   parseJsonLocations demoEnv twoText = Inr twoStrict \<and>
   jl_reviews (twoStrict ! 1) = Finite 0 \<and>
   rome \<in> set (parseTextLocations demoEnv ''1. Rome - old.'') \<and>
   (\<exists>n::int. reviews rome = JNum (Finite (of_int n)) \<and> 10000 \<le> n \<and> n < 50000)"
proof -
  have d: "getProp twoData ''locations'' = JArr [eiffelRecord, louvreRecord]"
    by (simp add: twoData_def)
  have n: "nullish (getProp ([eiffelRecord, louvreRecord] ! 1) ''reviews'')"
    by (simp add: louvreRecord_def)
  have j: "(1::nat) < length [eiffelRecord, louvreRecord]" "(1::nat) < length twoStrict"
    by (simp_all add: twoStrict_def)
  have r: "rome \<in> set (parseTextLocations demoEnv ''1. Rome - old.'')"
    by (simp add: text_rome)
  from reviews_defaults [of twoData "[eiffelRecord, louvreRecord]" 1 demoEnv twoPermissive twoChat
      twoText twoStrict rome]
    d n j body_twoData chat_twoData strict_twoText find_twoText demo_random
  have a: "(\<exists>n::int. reviews (twoPermissive ! 1) = JNum (Finite (of_int n)) \<and> 10000 \<le> n \<and> n < 50000) \<and>
           reviews (twoChat ! 1) = JNum (Finite 1000) \<and> jl_reviews (twoStrict ! 1) = Finite 0"
    by simp
  from reviews_defaults [of twoData "[eiffelRecord, louvreRecord]" 1 demoEnv twoPermissive twoChat
      "''1. Rome - old.''" twoStrict rome] demo_random r
  have b: "\<exists>n::int. reviews rome = JNum (Finite (of_int n)) \<and> 10000 \<le> n \<and> n < 50000" by blast
  from d n body_twoData chat_twoData strict_twoText r a b show ?thesis by simp
qed

text \<open>
  No review count in the records of the reply: the strict parser gives 0 and the chat
  message gives 1000.
\<close>

theorem reviews_fallback_counterexample:
  "getProp eiffelRecord ''reviews'' = JUndefined \<and>
   map_sum id (map jl_reviews) (parseJsonLocations demoEnv twoText) = Inr [Finite 0, Finite 0] \<and>
   map_option (map reviews) (chatMessageLocations demoEnv (Some twoText) False) =
     Some [JNum (Finite 1000), JNum (Finite 1000)]"
  by (simp add: eiffelRecord_def strict_twoText twoStrict_def chat_twoText twoChat_def)





text \<open>
  C8, as the code has it. \<open>parseTextLocations\<close> returns a list for every input and every
  behaviour of its collaborators (no exception leaves it), and what was accepted so far
  is never lost. But the \<^verbatim>\<open>try\<close> encloses the whole loop: an exception while a candidate
  is handled ends the scan there, and the locations accepted before it are the result.
\<close>

theorem scan_stops_at_error:
  "(\<exists>new. textLoop env s locations k = locations @ new) \<and>
   (exec s = Some (nm, d, rest) \<and> 2 \<le> length nm \<and>
    textLocation env (length locations) k (trim nm) d = Inl e
      \<longrightarrow> textLoop env s locations k = locations)"
proof
  show "\<exists>new. textLoop env s locations k = locations @ new" by (rule textLoop_extends)
next
  show "exec s = Some (nm, d, rest) \<and> 2 \<le> length nm \<and>
    textLocation env (length locations) k (trim nm) d = Inl e
      \<longrightarrow> textLoop env s locations k = locations"
  proof
    assume a: "exec s = Some (nm, d, rest) \<and> 2 \<le> length nm \<and>
      textLocation env (length locations) k (trim nm) d = Inl e"
    then have "nm \<noteq> []" by auto
    with a show "textLoop env s locations k = locations"
      by (simp add: textLoop.simps [of env s])
  qed
qed

theorem scan_stops_at_error_witness:
  "exec ''1. Atlantis - lost. 2. Rome - old.'' = Some (''Atlantis'', Some ''lost'', '' 2. Rome - old.'') \<and>
   textLocation demoEnv (length [rome]) 2 (trim ''Atlantis'') (Some ''lost'') = Inl CollaboratorError \<and>
   textLoop demoEnv ''1. Atlantis - lost. 2. Rome - old.'' [rome] 2 = [rome]"
proof -
  have t: "textLocation demoEnv (length [rome]) 2 (trim ''Atlantis'') (Some ''lost'') = Inl CollaboratorError"
    by (simp add: textLocation_def trim_def isSpace_def demoEnv_def)
  have n: "2 \<le> length ''Atlantis''" by simp
  from scan_stops_at_error [of demoEnv "''1. Atlantis - lost. 2. Rome - old.''" "[rome]" 2
      "''Atlantis''" "Some ''lost''" "'' 2. Rome - old.''" CollaboratorError] exec_atlantis t n
  show ?thesis by simp
qed

text \<open>
  The lookup throws on the first candidate, \<open>Atlantis\<close>. The candidate after it would be
  accepted (the rest of the text, scanned alone, gives Rome), yet the scan of the whole
  text returns nothing: it did not go on.
\<close>

theorem scan_continues_counterexample:
  "exec ''1. Atlantis - lost. 2. Rome - old.'' = Some (''Atlantis'', Some ''lost'', '' 2. Rome - old.'') \<and>
   getCoordinates demoEnv ''Atlantis'' = Inl CollaboratorError \<and>
   parseTextLocations demoEnv '' 2. Rome - old.'' = [rome] \<and>
   parseTextLocations demoEnv ''1. Atlantis - lost. 2. Rome - old.'' = []"
  by (simp add: exec_atlantis text_rome2 text_atlantis demo_atlantis del: exec.simps(2))












end
